theory Spec2Isabelle
  imports Main "HOL-Library.Monad_Syntax"
begin

section \<open>Conway's Game of Life: the board of \<^verbatim>\<open>game/board.cpp\<close> and its seeding\<close>

text \<open>
  The board class \<^verbatim>\<open>gol::game::GameOfLifeBoard\<close> owns one field, a
  \<^verbatim>\<open>std::vector<std::vector<bool>>\<close>. A vector is a list; the unchecked
  \<^verbatim>\<open>operator[]\<close> of a vector is a read that has no defined result past the end, so
  every indexed access of the source is a checked access here and \<open>None\<close> stands for
  an access out of range. The field \<^verbatim>\<open>state_\<close> is \<open>state\<close> here.

  Integer types are those of an LP64 platform: \<^verbatim>\<open>std::size_t\<close> has 64 bits and
  \<^verbatim>\<open>int\<close> has 32. A \<^verbatim>\<open>size_t\<close> value is a \<open>nat\<close>, an \<^verbatim>\<open>int\<close> value is
  an \<open>int\<close>, and each conversion and each sum that can leave its range is reduced as the
  machine reduces it. Sizes of vectors and the loop counters bounded by them never leave
  the range of \<^verbatim>\<open>size_t\<close>. Exhaustion of storage is outside the model.
\<close>

subsection \<open>Machine integers\<close>

definition size_t_of_int :: "int \<Rightarrow> nat" where
  \<comment> \<open>conversion of an \<^verbatim>\<open>int\<close> to \<^verbatim>\<open>std::size_t\<close>: modulo \<open>2^64\<close>\<close>
  "size_t_of_int k = nat (k mod 2 ^ 64)"

definition int_of_size_t :: "nat \<Rightarrow> int" where
  \<comment> \<open>narrowing of a \<^verbatim>\<open>std::size_t\<close> to \<^verbatim>\<open>int\<close>: the low 32 bits, read as two's complement\<close>
  "int_of_size_t n = (int n + 2 ^ 31) mod 2 ^ 32 - 2 ^ 31"

definition size_t_add :: "nat \<Rightarrow> nat \<Rightarrow> nat" where
  \<comment> \<open>addition of two \<^verbatim>\<open>std::size_t\<close> values wraps\<close>
  "size_t_add a b = (a + b) mod 2 ^ 64"

subsection \<open>The board\<close>

type_synonym CellStateVec = "bool list"
type_synonym CellStateMatrix = "CellStateVec list"

record GameOfLifeBoard =
  state :: CellStateMatrix

definition at :: "'a list \<Rightarrow> nat \<Rightarrow> 'a option" where
  \<comment> \<open>\<^verbatim>\<open>v[i]\<close> on a vector\<close>
  "at v i = (if i < length v then Some (v ! i) else None)"

definition GameOfLifeBoard :: "nat \<Rightarrow> nat \<Rightarrow> GameOfLifeBoard" where
  \<comment> \<open>\<^verbatim>\<open>state_(num_rows, CellStateVec(num_cols, false))\<close>, for sizes that the vectors
      can hold; what the standard library does at larger sizes is not part of the program\<close>
  "GameOfLifeBoard num_rows num_cols =
     \<lparr>state = replicate num_rows (replicate num_cols False)\<rparr>"

definition Rows :: "GameOfLifeBoard \<Rightarrow> nat" where
  \<comment> \<open>\<^verbatim>\<open>state_.size()\<close>\<close>
  "Rows b = length (state b)"

definition Cols :: "GameOfLifeBoard \<Rightarrow> nat option" where
  \<comment> \<open>\<^verbatim>\<open>state_[0].size()\<close>: reads row 0, which a board without rows does not have\<close>
  "Cols b = do { row0 \<leftarrow> at (state b) 0; Some (length row0) }"

definition set_cell :: "CellStateMatrix \<Rightarrow> nat \<Rightarrow> nat \<Rightarrow> bool \<Rightarrow> CellStateMatrix option" where
  \<comment> \<open>\<^verbatim>\<open>m[i][j] = v\<close> on the matrix\<close>
  "set_cell m i j v =
     do { r \<leftarrow> at m i;
          if j < length r then Some (m[i := r[j := v]]) else None }"

definition write_cell :: "GameOfLifeBoard \<Rightarrow> int \<Rightarrow> nat \<Rightarrow> bool \<Rightarrow> GameOfLifeBoard option" where
  \<comment> \<open>\<^verbatim>\<open>board[i][j] = v\<close> through the mutable \<^verbatim>\<open>operator[](int i)\<close>, which converts
      the \<^verbatim>\<open>int\<close> index to the vector's \<^verbatim>\<open>size_t\<close>\<close>
  "write_cell b i j v =
     do { m \<leftarrow> set_cell (state b) (size_t_of_int i) j v;
          Some (b\<lparr>state := m\<rparr>) }"

definition valid_board :: "GameOfLifeBoard \<Rightarrow> bool" where
  \<comment> \<open>the class invariant: every row has as many entries as row 0\<close>
  "valid_board b =
     (case state b of [] \<Rightarrow> True | row0 # rest \<Rightarrow> list_all (\<lambda>r. length r = length row0) rest)"

subsection \<open>Counting live neighbours\<close>

definition kDirections :: "(int \<times> int) list" where
  "kDirections = [(0, 1), (1, 0), (0, -1), (-1, 0), (1, 1), (1, -1), (-1, 1), (-1, -1)]"

definition count_direction ::
  "GameOfLifeBoard \<Rightarrow> int \<Rightarrow> int \<Rightarrow> nat \<Rightarrow> nat \<Rightarrow> int \<times> int \<Rightarrow> int \<Rightarrow> int option" where
  \<comment> \<open>the body of the loop over \<^verbatim>\<open>kDirections\<close>; \<^verbatim>\<open>&&\<close> reads the cell only
      after the four range tests passed; the counter stays below 9 and cannot overflow\<close>
  "count_direction b kRowLimit kColLimit row col direction num_live_neighbors =
     (let neighbor_row = int_of_size_t (size_t_add row (size_t_of_int (fst direction)));
          neighbor_col = int_of_size_t (size_t_add col (size_t_of_int (snd direction)))
      in if 0 \<le> neighbor_row \<and> neighbor_row < kRowLimit \<and>
            0 \<le> neighbor_col \<and> neighbor_col < kColLimit
         then do { r \<leftarrow> at (state b) (size_t_of_int neighbor_row);
                   cell \<leftarrow> at r (size_t_of_int neighbor_col);
                   Some (if cell then num_live_neighbors + 1 else num_live_neighbors) }
         else Some num_live_neighbors)"

fun count_directions ::
  "GameOfLifeBoard \<Rightarrow> int \<Rightarrow> int \<Rightarrow> nat \<Rightarrow> nat \<Rightarrow> (int \<times> int) list \<Rightarrow> int \<Rightarrow> int option" where
  "count_directions b kRowLimit kColLimit row col [] num_live_neighbors =
     Some num_live_neighbors"
| "count_directions b kRowLimit kColLimit row col (direction # rest) num_live_neighbors =
     do { n \<leftarrow> count_direction b kRowLimit kColLimit row col direction num_live_neighbors;
          count_directions b kRowLimit kColLimit row col rest n }"

definition CountLiveNeighbors :: "GameOfLifeBoard \<Rightarrow> nat \<Rightarrow> nat \<Rightarrow> int option" where
  "CountLiveNeighbors b row col =
     do { cols \<leftarrow> Cols b;
          count_directions b (int_of_size_t (Rows b)) (int_of_size_t cols) row col kDirections 0 }"

subsection \<open>One generation\<close>

definition Tick_cell :: "GameOfLifeBoard \<Rightarrow> nat \<Rightarrow> nat \<Rightarrow> CellStateMatrix \<Rightarrow> CellStateMatrix option" where
  \<comment> \<open>the body of the inner loop of \<^verbatim>\<open>Tick\<close>: \<open>b\<close> is the board, untouched, and
      \<open>tmp\<close> the copy that is written\<close>
  "Tick_cell b i j tmp =
     do { num_live_neighbors \<leftarrow> CountLiveNeighbors b i j;
          r \<leftarrow> at (state b) i;
          alive \<leftarrow> at r j;
          if alive then
            (if num_live_neighbors < 2 then set_cell tmp i j False
             else if num_live_neighbors > 3 then set_cell tmp i j False
             else Some tmp)
          else if num_live_neighbors = 3 then set_cell tmp i j True
          else Some tmp }"

function Tick_cols :: "GameOfLifeBoard \<Rightarrow> nat \<Rightarrow> nat \<Rightarrow> CellStateMatrix \<Rightarrow> CellStateMatrix option" where
  "Tick_cols b i j tmp =
     (case Cols b of
        None \<Rightarrow> None
      | Some cols \<Rightarrow>
          if j < cols then
            (case Tick_cell b i j tmp of
               None \<Rightarrow> None
             | Some tmp' \<Rightarrow> Tick_cols b i (j + 1) tmp')
          else Some tmp)"
  by pat_completeness auto
termination
  by (relation "measure (\<lambda>(b, i, j, tmp). (case Cols b of None \<Rightarrow> 0 | Some cols \<Rightarrow> cols - j))") auto

function Tick_rows :: "GameOfLifeBoard \<Rightarrow> nat \<Rightarrow> CellStateMatrix \<Rightarrow> CellStateMatrix option" where
  "Tick_rows b i tmp =
     (if i < Rows b then
        (case Tick_cols b i 0 tmp of
           None \<Rightarrow> None
         | Some tmp' \<Rightarrow> Tick_rows b (i + 1) tmp')
      else Some tmp)"
  by pat_completeness auto
termination
  by (relation "measure (\<lambda>(b, i, tmp). Rows b - i)") auto

definition Tick :: "GameOfLifeBoard \<Rightarrow> GameOfLifeBoard option" where
  \<comment> \<open>\<^verbatim>\<open>tmp = state_\<close>, the two loops, \<^verbatim>\<open>state_ = std::move(tmp)\<close>\<close>
  "Tick b = do { tmp \<leftarrow> Tick_rows b 0 (state b); Some (b\<lparr>state := tmp\<rparr>) }"


subsection \<open>Seeding the board (\<^verbatim>\<open>game_of_life.cpp\<close>)\<close>

record Position2D =
  pos_x :: nat
  pos_y :: nat

text \<open>
  The fields \<^verbatim>\<open>x\<close> and \<^verbatim>\<open>y\<close> of the source are \<open>pos_x\<close> and \<open>pos_y\<close> here.
  \<^verbatim>\<open>InitializeBoard\<close> receives the board by reference and can end in three ways: it
  returns, it throws \<^verbatim>\<open>std::runtime_error\<close> (the board stays as it was when the
  exception left), or it performs an access out of range.
\<close>

datatype seed_outcome =
  Seeded GameOfLifeBoard
| Thrown string GameOfLifeBoard
| OutOfRange

fun InitializeBoard :: "Position2D list \<Rightarrow> GameOfLifeBoard \<Rightarrow> seed_outcome" where
  "InitializeBoard [] board = Seeded board"
| "InitializeBoard (pos # rest) board =
     (case Cols board of
        None \<Rightarrow> OutOfRange
      | Some cols \<Rightarrow>
          if pos_x pos \<ge> cols \<or> pos_y pos \<ge> Rows board
          then Thrown ''position does not fit within board boundaries'' board
          else (case write_cell board (int_of_size_t (pos_y pos)) (pos_x pos) True of
                  None \<Rightarrow> OutOfRange
                | Some board' \<Rightarrow> InitializeBoard rest board'))"

definition seed_in_range :: "nat \<Rightarrow> nat \<Rightarrow> Position2D \<Rightarrow> bool" where
  "seed_in_range num_rows num_cols pos = (pos_y pos < num_rows \<and> pos_x pos < num_cols)"

subsection \<open>The life of a board: ticks and cell writes\<close>

datatype board_op = DoTick | DoWrite int nat bool

fun apply_op :: "GameOfLifeBoard \<Rightarrow> board_op \<Rightarrow> GameOfLifeBoard option" where
  "apply_op b DoTick = Tick b"
| "apply_op b (DoWrite i j v) = write_cell b i j v"

fun run_ops :: "GameOfLifeBoard \<Rightarrow> board_op list \<Rightarrow> GameOfLifeBoard option" where
  "run_ops b [] = Some b"
| "run_ops b (operation # rest) =
     (case apply_op b operation of None \<Rightarrow> None | Some b' \<Rightarrow> run_ops b' rest)"

definition op_in_range :: "nat \<Rightarrow> nat \<Rightarrow> board_op \<Rightarrow> bool" where
  \<comment> \<open>a write \<^verbatim>\<open>board[i][j] = v\<close> with the \<^verbatim>\<open>int\<close> \<open>i\<close> and the column \<open>j\<close> on the board\<close>
  "op_in_range num_rows num_cols operation =
     (case operation of
        DoTick \<Rightarrow> True
      | DoWrite i j v \<Rightarrow> 0 \<le> i \<and> i < 2 ^ 31 \<and> i < int num_rows \<and> j < num_cols)"

definition has_shape :: "nat \<Rightarrow> nat \<Rightarrow> GameOfLifeBoard \<Rightarrow> bool" where
  "has_shape num_rows num_cols b =
     (length (state b) = num_rows \<and> list_all (\<lambda>r. length r = num_cols) (state b))"

subsection \<open>The neighbour count in the words of the specification\<close>

definition alive_at :: "GameOfLifeBoard \<Rightarrow> int \<Rightarrow> int \<Rightarrow> bool" where
  \<comment> \<open>a position outside the board counts as dead\<close>
  "alive_at b r c =
     (0 \<le> r \<and> r < int (Rows b) \<and> 0 \<le> c \<and> c < int (length (state b ! nat r)) \<and>
      state b ! nat r ! nat c)"

definition neighbor_offsets :: "(int \<times> int) list" where
  "neighbor_offsets =
     [(-1, -1), (-1, 0), (-1, 1), (0, -1), (0, 1), (1, -1), (1, 0), (1, 1)]"

definition live_neighbors :: "GameOfLifeBoard \<Rightarrow> nat \<Rightarrow> nat \<Rightarrow> int" where
  "live_neighbors b r c =
     int (length (filter (\<lambda>(dr, dc). alive_at b (int r + dr) (int c + dc)) neighbor_offsets))"

subsection \<open>The blinker\<close>

definition horizontal_triple :: "nat \<Rightarrow> nat \<Rightarrow> GameOfLifeBoard \<Rightarrow> bool" where
  \<comment> \<open>the only live cells are \<open>(r, c - 1)\<close>, \<open>(r, c)\<close> and \<open>(r, c + 1)\<close>\<close>
  "horizontal_triple r c b =
     list_all (\<lambda>i. list_all (\<lambda>j. state b ! i ! j = (i = r \<and> (j + 1 = c \<or> j = c \<or> j = c + 1)))
                           [0..<length (state b ! i)])
              [0..<Rows b]"

definition vertical_triple :: "nat \<Rightarrow> nat \<Rightarrow> GameOfLifeBoard \<Rightarrow> bool" where
  \<comment> \<open>the only live cells are \<open>(r - 1, c)\<close>, \<open>(r, c)\<close> and \<open>(r + 1, c)\<close>\<close>
  "vertical_triple r c b =
     list_all (\<lambda>i. list_all (\<lambda>j. state b ! i ! j = (j = c \<and> (i + 1 = r \<or> i = r \<or> i = r + 1)))
                           [0..<length (state b ! i)])
              [0..<Rows b]"

definition roomy :: "nat \<Rightarrow> nat \<Rightarrow> GameOfLifeBoard \<Rightarrow> bool" where
  \<comment> \<open>the board has a row above and below \<open>r\<close> and a column left and right of \<open>c\<close>, and
      fewer than \<open>2^31\<close> rows and columns\<close>
  "roomy r c b =
     (valid_board b \<and> 1 \<le> r \<and> r + 1 < Rows b \<and> 1 \<le> c \<and> c + 1 < length (state b ! 0) \<and>
      Rows b < 2 ^ 31 \<and> length (state b ! 0) < 2 ^ 31)"

subsection \<open>Two boards of \<open>2^31\<close> columns\<close>

definition wide_pair :: GameOfLifeBoard where
  \<comment> \<open>one row of \<open>2^31\<close> cells, the cells \<open>(0, 0)\<close> and \<open>(0, 1)\<close> alive\<close>
  "wide_pair = \<lparr>state = [(replicate (2 ^ 31) False)[0 := True, 1 := True]]\<rparr>"

definition wide_blinker :: GameOfLifeBoard where
  \<comment> \<open>three rows of \<open>2^31\<close> cells, alive the cells \<open>(1, 0)\<close>, \<open>(1, 1)\<close> and \<open>(1, 2)\<close>\<close>
  "wide_blinker =
     \<lparr>state = [replicate (2 ^ 31) False,
               (replicate (2 ^ 31) False)[0 := True, 1 := True, 2 := True],
               replicate (2 ^ 31) False]\<rparr>"

subsection \<open>The rules and the double-buffered reference\<close>

definition transition :: "bool \<Rightarrow> int \<Rightarrow> bool" where
  \<comment> \<open>the five rules in the order the specification lists them\<close>
  "transition alive n =
     (if alive \<and> n < 2 then False
      else if alive \<and> n > 3 then False
      else if alive \<and> (n = 2 \<or> n = 3) then True
      else if \<not> alive \<and> n = 3 then True
      else False)"




definition all_dead :: "GameOfLifeBoard \<Rightarrow> bool" where
  "all_dead b = list_all (\<lambda>r. list_all (\<lambda>cell. \<not> cell) r) (state b)"

subsection \<open>Auxiliary notions for the proofs\<close>

definition narrow :: "int \<Rightarrow> int" where
  \<comment> \<open>the low 32 bits of an integer, read as two's complement\<close>
  "narrow k = (k + 2 ^ 31) mod 2 ^ 32 - 2 ^ 31"

definition count_hit :: "GameOfLifeBoard \<Rightarrow> nat \<Rightarrow> nat \<Rightarrow> int \<times> int \<Rightarrow> bool" where
  \<comment> \<open>the condition under which \<open>count_direction\<close> increments, on a board with rows of one length\<close>
  "count_hit b row col direction =
     (let neighbor_row = narrow (int row + fst direction);
          neighbor_col = narrow (int col + snd direction)
      in 0 \<le> neighbor_row \<and> neighbor_row < int_of_size_t (Rows b) \<and>
         0 \<le> neighbor_col \<and> neighbor_col < int_of_size_t (length (state b ! 0)) \<and>
         state b ! nat neighbor_row ! nat neighbor_col)"

definition live_count :: "GameOfLifeBoard \<Rightarrow> nat \<Rightarrow> nat \<Rightarrow> int" where
  "live_count b row col = int (length (filter (count_hit b row col) kDirections))"

definition Tick_progress :: "GameOfLifeBoard \<Rightarrow> nat \<Rightarrow> nat \<Rightarrow> CellStateMatrix" where
  \<comment> \<open>the copy \<open>tmp\<close> when the loops of \<open>Tick\<close> stand before cell \<open>(i, j)\<close>: the cells
      before it in row-major order hold their next state, the others their old one\<close>
  "Tick_progress b i j =
     map (\<lambda>i'. map (\<lambda>j'. if i' < i \<or> (i' = i \<and> j' < j)
                           then transition (state b ! i' ! j') (live_count b i' j')
                           else state b ! i' ! j')
                  [0..<length (state b ! i')])
         [0..<Rows b]"

section \<open>Properties\<close>

declare Tick_cols.simps [simp del] Tick_rows.simps [simp del]

subsection \<open>Integer conversions\<close>

lemma int_of_size_t_narrow: "int_of_size_t n = narrow (int n)"
  by (simp add: int_of_size_t_def narrow_def)

lemma neighbor_index:
  "int_of_size_t (size_t_add n (size_t_of_int d)) = narrow (int n + d)"
proof -
  have "int (size_t_add n (size_t_of_int d)) = (int n + d) mod 2 ^ 64"
    by (simp add: size_t_add_def size_t_of_int_def zmod_int mod_add_right_eq)
  moreover have "((int n + d) mod 2 ^ 64 + 2 ^ 31) mod (2 ^ 32 :: int) = (int n + d + 2 ^ 31) mod 2 ^ 32"
  proof -
    have "(2 ^ 32 :: int) dvd 2 ^ 64" by (simp add: le_imp_power_dvd)
    then have "((int n + d) mod 2 ^ 64) mod (2 ^ 32 :: int) = (int n + d) mod 2 ^ 32"
      by (rule mod_mod_cancel)
    then show ?thesis by (metis mod_add_left_eq)
  qed
  ultimately show ?thesis by (simp add: int_of_size_t_def narrow_def)
qed

lemma narrow_le: "0 \<le> k \<Longrightarrow> narrow k \<le> k"
  using zmod_le_nonneg_dividend [of "k + 2 ^ 31" "2 ^ 32"] by (simp add: narrow_def)

lemma narrow_range: "- (2 ^ 31) \<le> narrow k \<and> narrow k < 2 ^ 31"
  using pos_mod_bound [of "2 ^ 32" "k + 2 ^ 31"] pos_mod_sign [of "2 ^ 32" "k + 2 ^ 31"]
  by (simp add: narrow_def)

lemma narrow_id: "- (2 ^ 31) \<le> k \<Longrightarrow> k < 2 ^ 31 \<Longrightarrow> narrow k = k"
  using mod_pos_pos_trivial [of "k + 2 ^ 31" "2 ^ 32"] by (simp add: narrow_def)

lemma size_t_of_int_nonneg: "0 \<le> k \<Longrightarrow> k < 2 ^ 64 \<Longrightarrow> size_t_of_int k = nat k"
  by (simp add: size_t_of_int_def)

subsection \<open>The neighbour count on a board with rows of one length\<close>

lemma valid_board_row_length:
  "valid_board b \<Longrightarrow> i < Rows b \<Longrightarrow> length (state b ! i) = length (state b ! 0)"
  by (cases "state b"; cases i) (auto simp: valid_board_def Rows_def list_all_length)

lemma Cols_Some: "0 < Rows b \<Longrightarrow> Cols b = Some (length (state b ! 0))"
  by (simp add: Cols_def Rows_def at_def)

lemma Cols_None: "Rows b = 0 \<Longrightarrow> Cols b = None"
  by (simp add: Cols_def Rows_def at_def)

lemma int_of_size_t_le: "int_of_size_t n \<le> int n"
  by (simp add: int_of_size_t_narrow narrow_le)

lemma count_direction_eq:
  assumes "valid_board b"
  shows "count_direction b (int_of_size_t (Rows b)) (int_of_size_t (length (state b ! 0))) row col d n =
         Some (if count_hit b row col d then n + 1 else n)"
proof -
  define nr where "nr = narrow (int row + fst d)"
  define nc where "nc = narrow (int col + snd d)"
  show ?thesis
  proof (cases "0 \<le> nr \<and> nr < int_of_size_t (Rows b) \<and> 0 \<le> nc \<and> nc < int_of_size_t (length (state b ! 0))")
    case False
    then show ?thesis
      by (auto simp: count_direction_def count_hit_def neighbor_index nr_def nc_def Let_def)
  next
    case True
    then have r: "nat nr < Rows b" and c: "nat nc < length (state b ! 0)"
      using int_of_size_t_le [of "Rows b"] int_of_size_t_le [of "length (state b ! 0)"] by linarith+
    have len: "length (state b ! nat nr) = length (state b ! 0)"
      using assms r by (rule valid_board_row_length)
    have sr: "size_t_of_int nr = nat nr" and sc: "size_t_of_int nc = nat nc"
      using True narrow_range [of "int row + fst d"] narrow_range [of "int col + snd d"]
      by (simp_all add: size_t_of_int_def nr_def nc_def)
    show ?thesis
      using True r c len
      by (simp add: count_direction_def count_hit_def neighbor_index nr_def [symmetric] nc_def [symmetric]
          Let_def sr sc at_def Rows_def)
  qed
qed

lemma count_directions_eq:
  assumes "valid_board b"
  shows "count_directions b (int_of_size_t (Rows b)) (int_of_size_t (length (state b ! 0))) row col ds n =
         Some (n + int (length (filter (count_hit b row col) ds)))"
  by (induction ds arbitrary: n) (simp_all add: count_direction_eq [OF assms])

lemma CountLiveNeighbors_eq:
  "valid_board b \<Longrightarrow> 0 < Rows b \<Longrightarrow> CountLiveNeighbors b row col = Some (live_count b row col)"
  by (simp add: CountLiveNeighbors_def Cols_Some count_directions_eq live_count_def)

lemma live_count_range: "0 \<le> live_count b row col \<and> live_count b row col \<le> 8"
proof -
  have "length (filter (count_hit b row col) kDirections) \<le> length kDirections"
    by (rule length_filter_le)
  then show ?thesis by (simp add: live_count_def kDirections_def)
qed

subsection \<open>The loops of \<open>Tick\<close>\<close>

lemma Tick_progress_start: "Tick_progress b 0 0 = state b"
  by (simp add: Tick_progress_def Rows_def map_nth)

lemma length_Tick_progress [simp]: "length (Tick_progress b i j) = Rows b"
  by (simp add: Tick_progress_def)

lemma length_Tick_progress_row [simp]:
  "i' < Rows b \<Longrightarrow> length (Tick_progress b i j ! i') = length (state b ! i')"
  by (simp add: Tick_progress_def)

lemma Tick_progress_nth:
  "i' < Rows b \<Longrightarrow> j' < length (state b ! i') \<Longrightarrow>
   Tick_progress b i j ! i' ! j' =
     (if i' < i \<or> (i' = i \<and> j' < j) then transition (state b ! i' ! j') (live_count b i' j')
      else state b ! i' ! j')"
  by (simp add: Tick_progress_def)

lemma Tick_progress_step:
  assumes "i < Rows b" "j < length (state b ! i)"
  shows "(Tick_progress b i j)[i := (Tick_progress b i j ! i)[j := transition (state b ! i ! j) (live_count b i j)]]
         = Tick_progress b i (j + 1)"
proof (rule nth_equalityI)
  show "length ((Tick_progress b i j)[i := (Tick_progress b i j ! i)[j := transition (state b ! i ! j) (live_count b i j)]])
        = length (Tick_progress b i (j + 1))"
    by simp
next
  fix i'
  assume "i' < length ((Tick_progress b i j)[i := (Tick_progress b i j ! i)[j := transition (state b ! i ! j) (live_count b i j)]])"
  then have i': "i' < Rows b" by simp
  show "(Tick_progress b i j)[i := (Tick_progress b i j ! i)[j := transition (state b ! i ! j) (live_count b i j)]] ! i'
        = Tick_progress b i (j + 1) ! i'"
  proof (cases "i' = i")
    case False
    with i' show ?thesis by (auto simp: Tick_progress_def)
  next
    case True
    have "(Tick_progress b i j ! i)[j := transition (state b ! i ! j) (live_count b i j)] = Tick_progress b i (j + 1) ! i"
    proof (rule nth_equalityI)
      show "length ((Tick_progress b i j ! i)[j := transition (state b ! i ! j) (live_count b i j)])
            = length (Tick_progress b i (j + 1) ! i)"
        using assms by simp
    next
      fix j'
      assume "j' < length ((Tick_progress b i j ! i)[j := transition (state b ! i ! j) (live_count b i j)])"
      then have j': "j' < length (state b ! i)" using assms by simp
      show "(Tick_progress b i j ! i)[j := transition (state b ! i ! j) (live_count b i j)] ! j'
            = Tick_progress b i (j + 1) ! i ! j'"
        using assms j' by (auto simp: Tick_progress_nth nth_list_update)
    qed
    with True i' show ?thesis by simp
  qed
qed

lemma Tick_progress_next_row:
  assumes "valid_board b" "i < Rows b"
  shows "Tick_progress b i (length (state b ! 0)) = Tick_progress b (i + 1) 0"
proof -
  have len: "length (state b ! i) = length (state b ! 0)"
    using assms by (rule valid_board_row_length)
  have "(i' < i \<or> (i' = i \<and> j' < length (state b ! 0))) = (i' < i + 1 \<or> (i' = i + 1 \<and> j' < 0))"
    if "j' < length (state b ! i')" for i' j'
  proof (cases "i' = i")
    case True
    with that len show ?thesis by simp
  next
    case False
    then show ?thesis by auto
  qed
  then show ?thesis
    by (simp add: Tick_progress_def)
qed

lemma Tick_cell_unfold:
  assumes v: "valid_board b" and i: "i < Rows b" and j: "j < length (state b ! 0)"
  shows "Tick_cell b i j tmp =
     (if state b ! i ! j then
        (if live_count b i j < 2 then set_cell tmp i j False
         else if live_count b i j > 3 then set_cell tmp i j False
         else Some tmp)
      else if live_count b i j = 3 then set_cell tmp i j True
      else Some tmp)"
proof -
  have len: "length (state b ! i) = length (state b ! 0)"
    using v i by (rule valid_board_row_length)
  have pos: "0 < Rows b" using i by simp
  have r: "at (state b) i = Some (state b ! i)"
    using i by (simp add: at_def Rows_def)
  have c: "at (state b ! i) j = Some (state b ! i ! j)"
    using j len by (simp add: at_def)
  show ?thesis
    by (simp add: Tick_cell_def CountLiveNeighbors_eq [OF v pos] r c)
qed

lemma Tick_cell_eq:
  assumes v: "valid_board b" and i: "i < Rows b" and j: "j < length (state b ! 0)"
  shows "Tick_cell b i j (Tick_progress b i j) = Some (Tick_progress b i (j + 1))"
proof -
  have len: "length (state b ! i) = length (state b ! 0)"
    using v i by (rule valid_board_row_length)
  have cur: "Tick_progress b i j ! i ! j = state b ! i ! j"
    using i j len by (simp add: Tick_progress_nth)
  have same: "(Tick_progress b i j)[i := (Tick_progress b i j ! i)[j := state b ! i ! j]] = Tick_progress b i j"
    by (subst cur [symmetric]) simp
  have set: "set_cell (Tick_progress b i j) i j x =
             Some ((Tick_progress b i j)[i := (Tick_progress b i j ! i)[j := x]])" for x
    using i j len by (simp add: set_cell_def at_def)
  have step: "(Tick_progress b i j)[i := (Tick_progress b i j ! i)[j := transition (state b ! i ! j) (live_count b i j)]]
              = Tick_progress b i (j + 1)"
    using i j len by (simp add: Tick_progress_step)
  have "Tick_cell b i j (Tick_progress b i j) =
        Some ((Tick_progress b i j)[i := (Tick_progress b i j ! i)[j := transition (state b ! i ! j) (live_count b i j)]])"
  proof (cases "state b ! i ! j")
    case True
    then show ?thesis
      using same by (simp add: Tick_cell_unfold [OF v i j] set transition_def)
  next
    case False
    then show ?thesis
      using same by (simp add: Tick_cell_unfold [OF v i j] set transition_def)
  qed
  with step show ?thesis by simp
qed

lemma Tick_cols_eq:
  assumes v: "valid_board b" and i: "i < Rows b"
  shows "j \<le> length (state b ! 0) \<Longrightarrow>
         Tick_cols b i j (Tick_progress b i j) = Some (Tick_progress b (i + 1) 0)"
proof (induction "length (state b ! 0) - j" arbitrary: j)
  case 0
  then have "j = length (state b ! 0)" by simp
  then show ?case
    using i v by (subst Tick_cols.simps) (simp add: Cols_Some Tick_progress_next_row)
next
  case (Suc k)
  then have j: "j < length (state b ! 0)" by simp
  have "Tick_cols b i (j + 1) (Tick_progress b i (j + 1)) = Some (Tick_progress b (i + 1) 0)"
    using Suc by (intro Suc.hyps(1)) simp_all
  then show ?case
    using i j by (subst Tick_cols.simps) (simp add: Cols_Some Tick_cell_eq [OF v i j])
qed

lemma Tick_rows_eq:
  assumes v: "valid_board b"
  shows "i \<le> Rows b \<Longrightarrow> Tick_rows b i (Tick_progress b i 0) = Some (Tick_progress b (Rows b) 0)"
proof (induction "Rows b - i" arbitrary: i)
  case 0
  then show ?case by (subst Tick_rows.simps) simp
next
  case (Suc k)
  then have i: "i < Rows b" by simp
  have "Tick_rows b (i + 1) (Tick_progress b (i + 1) 0) = Some (Tick_progress b (Rows b) 0)"
    using Suc by (intro Suc.hyps(1)) simp_all
  then show ?case
    using i by (subst Tick_rows.simps) (simp add: Tick_cols_eq [OF v i])
qed

lemma Tick_eq:
  "valid_board b \<Longrightarrow> Tick b = Some (b\<lparr>state := Tick_progress b (Rows b) 0\<rparr>)"
  using Tick_rows_eq [of b 0] by (simp add: Tick_def Tick_progress_start)

lemma valid_board_GameOfLifeBoard: "valid_board (GameOfLifeBoard num_rows num_cols)"
  by (cases num_rows) (simp_all add: valid_board_def GameOfLifeBoard_def list_all_length)

subsection \<open>The result of \<open>Tick\<close> and of the reference\<close>

lemma Tick_result_nth:
  assumes "valid_board b" "i < Rows b" "j < length (state b ! i)"
  shows "\<exists>b'. Tick b = Some b' \<and> state b' ! i ! j = transition (state b ! i ! j) (live_count b i j)"
  using assms by (simp add: Tick_eq Tick_progress_nth)

lemma Tick_progress_end:
  "Tick_progress b (Rows b) 0 =
     map (\<lambda>i. map (\<lambda>j. transition (state b ! i ! j) (live_count b i j)) [0..<length (state b ! i)])
         [0..<Rows b]"
  by (simp add: Tick_progress_def)




subsection \<open>Boards without a live cell\<close>

lemma all_dead_nth:
  "all_dead b \<Longrightarrow> i < Rows b \<Longrightarrow> j < length (state b ! i) \<Longrightarrow> \<not> state b ! i ! j"
  by (simp add: all_dead_def Rows_def list_all_length)

lemma count_hit_all_dead:
  assumes v: "valid_board b" and d: "all_dead b"
  shows "\<not> count_hit b row col direction"
proof
  assume h: "count_hit b row col direction"
  define nr where "nr = narrow (int row + fst direction)"
  define nc where "nc = narrow (int col + snd direction)"
  from h have rng: "0 \<le> nr" "nr < int_of_size_t (Rows b)" "0 \<le> nc"
      "nc < int_of_size_t (length (state b ! 0))" and cell: "state b ! nat nr ! nat nc"
    by (simp_all add: count_hit_def nr_def nc_def Let_def)
  have r: "nat nr < Rows b" and c: "nat nc < length (state b ! 0)"
    using rng int_of_size_t_le [of "Rows b"] int_of_size_t_le [of "length (state b ! 0)"] by linarith+
  have "length (state b ! nat nr) = length (state b ! 0)"
    using v r by (rule valid_board_row_length)
  with c have "nat nc < length (state b ! nat nr)" by simp
  with d r have "\<not> state b ! nat nr ! nat nc" by (rule all_dead_nth)
  with cell show False by simp
qed

lemma live_count_all_dead: "valid_board b \<Longrightarrow> all_dead b \<Longrightarrow> live_count b row col = 0"
  by (simp add: live_count_def count_hit_all_dead)

lemma Tick_progress_all_dead:
  assumes v: "valid_board b" and d: "all_dead b"
  shows "Tick_progress b (Rows b) 0 = state b"
proof -
  have "transition (state b ! i ! j) (live_count b i j) = state b ! i ! j"
    if "i < Rows b" "j < length (state b ! i)" for i j
    using all_dead_nth [OF d that] by (simp add: live_count_all_dead [OF v d] transition_def)
  then have "Tick_progress b (Rows b) 0 = Tick_progress b 0 0"
    by (simp add: Tick_progress_def)
  then show ?thesis by (simp add: Tick_progress_start)
qed

subsection \<open>Evaluation on a board of three rows and three columns\<close>

lemma count_direction_narrow:
  "count_direction b kRowLimit kColLimit row col direction n =
     (let neighbor_row = narrow (int row + fst direction);
          neighbor_col = narrow (int col + snd direction)
      in if 0 \<le> neighbor_row \<and> neighbor_row < kRowLimit \<and>
            0 \<le> neighbor_col \<and> neighbor_col < kColLimit
         then do { r \<leftarrow> at (state b) (nat neighbor_row);
                   cell \<leftarrow> at r (nat neighbor_col);
                   Some (if cell then n + 1 else n) }
         else Some n)"
proof -
  have "size_t_of_int (narrow k) = nat (narrow k)" if "0 \<le> narrow k" for k
    using that narrow_range [of k] by (simp add: size_t_of_int_def)
  then show ?thesis
    by (simp add: count_direction_def neighbor_index Let_def)
qed

lemma upt3: "[0..<3] = [0, 1, 2]"
  by (simp add: upt_rec numeral_3_eq_3)


subsection \<open>The shape of a board under ticks and cell writes\<close>

lemma has_shape_GameOfLifeBoard: "has_shape num_rows num_cols (GameOfLifeBoard num_rows num_cols)"
  by (simp add: has_shape_def GameOfLifeBoard_def list_all_length)

lemma has_shape_valid: "has_shape num_rows num_cols b \<Longrightarrow> valid_board b"
  by (cases "state b") (auto simp: has_shape_def valid_board_def list_all_iff)

lemma has_shape_Tick:
  assumes "has_shape num_rows num_cols b"
  shows "\<exists>b'. Tick b = Some b' \<and> has_shape num_rows num_cols b' \<and> Rows b' = Rows b \<and> Cols b' = Cols b"
proof -
  have v: "valid_board b" using assms by (rule has_shape_valid)
  let ?b' = "b\<lparr>state := Tick_progress b (Rows b) 0\<rparr>"
  have t: "Tick b = Some ?b'" using v by (rule Tick_eq)
  have rows: "Rows ?b' = Rows b" by (simp add: Rows_def [of ?b'])
  have len: "length (state ?b' ! i) = length (state b ! i)" if "i < Rows b" for i
    using that by simp
  have shape: "has_shape num_rows num_cols ?b'"
    using assms len by (simp add: has_shape_def list_all_length Rows_def)
  have "Cols ?b' = Cols b"
  proof (cases "Rows b = 0")
    case True
    then show ?thesis using rows by (simp add: Cols_None)
  next
    case False
    then show ?thesis using rows len [of 0] by (simp add: Cols_Some)
  qed
  with t rows shape show ?thesis by blast
qed

lemma has_shape_write_cell:
  assumes "has_shape num_rows num_cols b" "op_in_range num_rows num_cols (DoWrite i j v)"
  shows "\<exists>b'. write_cell b i j v = Some b' \<and> has_shape num_rows num_cols b'"
proof -
  from assms(2) have i: "0 \<le> i" "i < 2 ^ 31" "nat i < num_rows" and j: "j < num_cols"
    by (auto simp: op_in_range_def)
  have s: "size_t_of_int i = nat i"
    using i by (simp add: size_t_of_int_def)
  have r: "length (state b ! nat i) = num_cols" and n: "length (state b) = num_rows"
    using assms(1) i by (simp_all add: has_shape_def list_all_length)
  have w: "write_cell b i j v = Some (b\<lparr>state := (state b)[nat i := (state b ! nat i)[j := v]]\<rparr>)"
    using i j r n by (simp add: write_cell_def set_cell_def at_def s)
  have "has_shape num_rows num_cols (b\<lparr>state := (state b)[nat i := (state b ! nat i)[j := v]]\<rparr>)"
    using assms(1) r set_update_subset_insert [of "state b" "nat i" "(state b ! nat i)[j := v]"]
    by (auto simp: has_shape_def list_all_iff)
  with w show ?thesis by blast
qed

lemma run_ops_shape:
  "has_shape num_rows num_cols b \<Longrightarrow> list_all (op_in_range num_rows num_cols) ops \<Longrightarrow>
   \<exists>b'. run_ops b ops = Some b' \<and> has_shape num_rows num_cols b'"
proof (induction ops arbitrary: b)
  case Nil
  then show ?case by simp
next
  case (Cons operation rest)
  have "\<exists>b1. apply_op b operation = Some b1 \<and> has_shape num_rows num_cols b1"
  proof (cases operation)
    case DoTick
    then show ?thesis using has_shape_Tick [OF Cons.prems(1)] by auto
  next
    case (DoWrite i j v)
    then show ?thesis using has_shape_write_cell [OF Cons.prems(1), of i j v] Cons.prems(2) by simp
  qed
  then obtain b1 where b1: "apply_op b operation = Some b1" "has_shape num_rows num_cols b1"
    by blast
  from Cons.IH [OF b1(2)] Cons.prems(2) obtain b' where "run_ops b1 rest = Some b'"
    "has_shape num_rows num_cols b'" by auto
  with b1(1) show ?case by simp
qed

subsection \<open>The neighbour count on boards of fewer than \<open>2^31\<close> rows and columns\<close>

lemma int_of_size_t_id: "n < 2 ^ 31 \<Longrightarrow> int_of_size_t n = int n"
proof -
  assume "n < 2 ^ 31"
  then have "int n < 2 ^ 31" by (metis of_nat_less_iff of_nat_numeral of_nat_power)
  then show ?thesis by (simp add: int_of_size_t_narrow narrow_id)
qed

lemma count_hit_alive_at:
  assumes v: "valid_board b" and R: "Rows b < 2 ^ 31" and C: "length (state b ! 0) < 2 ^ 31"
    and r: "r < Rows b" and c: "c < length (state b ! 0)"
    and d: "- 1 \<le> dr" "dr \<le> 1" "- 1 \<le> dc" "dc \<le> 1"
  shows "count_hit b r c (dr, dc) = alive_at b (int r + dr) (int c + dc)"
proof -
  have Ri: "int (Rows b) < 2 ^ 31" and Ci: "int (length (state b ! 0)) < 2 ^ 31"
    using R C by (metis of_nat_less_iff of_nat_numeral of_nat_power)+
  have nr: "narrow (int r + dr) = int r + dr"
    using r Ri d by (intro narrow_id) linarith+
  have nc: "narrow (int c + dc) = int c + dc"
    using c Ci d by (intro narrow_id) linarith+
  have len: "length (state b ! nat (int r + dr)) = length (state b ! 0)"
    if "0 \<le> int r + dr" "int r + dr < int (Rows b)"
    using that by (intro valid_board_row_length [OF v]) linarith
  show ?thesis
    using len by (auto simp: count_hit_def alive_at_def Let_def nr nc int_of_size_t_id [OF R] int_of_size_t_id [OF C])
qed

lemma length_filter_sum: "int (length (filter P xs)) = (\<Sum>x\<leftarrow>xs. if P x then 1 else 0)"
  by (induction xs) simp_all

lemma live_count_live_neighbors:
  assumes "valid_board b" "Rows b < 2 ^ 31" "length (state b ! 0) < 2 ^ 31"
    "r < Rows b" "c < length (state b ! 0)"
  shows "live_count b r c = live_neighbors b r c"
proof -
  have h: "count_hit b r c (dr, dc) = alive_at b (int r + dr) (int c + dc)"
    if "- 1 \<le> dr" "dr \<le> 1" "- 1 \<le> dc" "dc \<le> 1" for dr dc
    using assms that by (rule count_hit_alive_at)
  show ?thesis
    unfolding live_count_def live_neighbors_def length_filter_sum
    by (simp add: kDirections_def neighbor_offsets_def h del: if_split)
qed

lemma CountLiveNeighbors_bounded:
  assumes "valid_board b" "Rows b < 2 ^ 31" "length (state b ! 0) < 2 ^ 31"
    "r < Rows b" "c < length (state b ! 0)"
  shows "CountLiveNeighbors b r c = Some (live_neighbors b r c)"
  using assms by (simp add: CountLiveNeighbors_eq live_count_live_neighbors)

lemma lone_cell_has_no_neighbor:
  assumes v: "valid_board b" and pos: "0 < Rows b"
    and lone: "\<forall>i<Rows b. \<forall>j<length (state b ! i). state b ! i ! j \<longrightarrow> i = 0 \<and> j = 0"
  shows "CountLiveNeighbors b 0 0 = Some 0"
proof -
  have "\<not> count_hit b 0 0 d" if d: "d \<in> set kDirections" for d
  proof
    assume h: "count_hit b 0 0 d"
    define nr where "nr = narrow (fst d)"
    define nc where "nc = narrow (snd d)"
    from h have rng: "0 \<le> nr" "nr < int_of_size_t (Rows b)" "0 \<le> nc"
        "nc < int_of_size_t (length (state b ! 0))" and cell: "state b ! nat nr ! nat nc"
      by (simp_all add: count_hit_def nr_def nc_def Let_def)
    have r: "nat nr < Rows b" and c: "nat nc < length (state b ! 0)"
      using rng int_of_size_t_le [of "Rows b"] int_of_size_t_le [of "length (state b ! 0)"] by linarith+
    have "length (state b ! nat nr) = length (state b ! 0)"
      using v r by (rule valid_board_row_length)
    with c have "nat nc < length (state b ! nat nr)" by simp
    with lone r cell have "nat nr = 0 \<and> nat nc = 0" by blast
    with rng have "nr = 0" "nc = 0" by simp_all
    with d show False
      by (auto simp: kDirections_def nr_def nc_def narrow_def)
  qed
  then have "live_count b 0 0 = 0"
    by (simp add: live_count_def)
  with CountLiveNeighbors_eq [OF v pos] show ?thesis by simp
qed


subsection \<open>Boards of \<open>2^31\<close> columns\<close>

lemma live_count_wide:
  assumes "int_of_size_t (length (state b ! 0)) \<le> 0"
  shows "live_count b row col = 0"
proof -
  have "\<not> count_hit b row col d" for d
    using assms by (auto simp: count_hit_def Let_def)
  then show ?thesis by (simp add: live_count_def)
qed

lemma Tick_wide:
  assumes v: "valid_board b" and w: "int_of_size_t (length (state b ! 0)) \<le> 0"
  shows "Tick b = Some (b\<lparr>state := map (\<lambda>i. replicate (length (state b ! i)) False) [0..<Rows b]\<rparr>)"
proof -
  have "Tick_progress b (Rows b) 0 = map (\<lambda>i. replicate (length (state b ! i)) False) [0..<Rows b]"
    by (simp add: Tick_progress_end live_count_wide [OF w] transition_def map_replicate_const)
  then show ?thesis using Tick_eq [OF v] by simp
qed

lemma valid_wide_pair: "valid_board wide_pair"
  by (simp add: valid_board_def wide_pair_def)

lemma valid_wide_blinker: "valid_board wide_blinker"
  by (simp add: valid_board_def wide_blinker_def)

lemma horizontal_wide_blinker: "horizontal_triple 1 1 wide_blinker"
proof -
  have "state wide_blinker ! i ! j = (i = 1 \<and> (j + 1 = 1 \<or> j = 1 \<or> j = 1 + 1))"
    if "i < 3" "j < 2 ^ 31" for i j
  proof -
    from that(1) have "i = 0 \<or> i = 1 \<or> i = 2" by arith
    then show ?thesis
      using that(2) by (auto simp: wide_blinker_def nth_list_update split: if_splits)
  qed
  moreover have "length (state wide_blinker ! i) = 2 ^ 31" if "i < 3" for i
  proof -
    from that have "i = 0 \<or> i = 1 \<or> i = 2" by arith
    then show ?thesis by (auto simp: wide_blinker_def)
  qed
  moreover have "Rows wide_blinker = 3" by (simp add: Rows_def wide_blinker_def)
  ultimately show ?thesis
    by (simp add: horizontal_triple_def list_all_iff)
qed

lemma not_vertical_dead: "\<not> vertical_triple 1 1 (GameOfLifeBoard 3 (2 ^ 31))"
proof
  assume "vertical_triple 1 1 (GameOfLifeBoard 3 (2 ^ 31))"
  then have "\<forall>i<3. \<forall>j<2 ^ 31. state (GameOfLifeBoard 3 (2 ^ 31)) ! i ! j = (j = 1 \<and> (i + 1 = 1 \<or> i = 1 \<or> i = 1 + 1))"
    by (simp add: vertical_triple_def list_all_iff Rows_def GameOfLifeBoard_def)
  then have "state (GameOfLifeBoard 3 (2 ^ 31)) ! 1 ! 1"
    by simp
  then show False by (simp add: GameOfLifeBoard_def)
qed

subsection \<open>The blinker on boards of fewer than \<open>2^31\<close> rows and columns\<close>

lemma horizontal_to_vertical_arith:
  fixes a b :: int
  shows "transition (a = 0 \<and> (b = - 1 \<or> b = 0 \<or> b = 1))
           (\<Sum>(dr, dc)\<leftarrow>neighbor_offsets.
               if a + dr = 0 \<and> (b + dc = - 1 \<or> b + dc = 0 \<or> b + dc = 1) then 1 else 0)
         = (b = 0 \<and> (a = - 1 \<or> a = 0 \<or> a = 1))"
proof -
  have A: "a \<le> - 2 \<or> a = - 1 \<or> a = 0 \<or> a = 1 \<or> 2 \<le> a" by arith
  have B: "b \<le> - 3 \<or> b = - 2 \<or> b = - 1 \<or> b = 0 \<or> b = 1 \<or> b = 2 \<or> 3 \<le> b" by arith
  from A B show ?thesis
    by (elim disjE) (simp_all add: neighbor_offsets_def transition_def)
qed

lemma vertical_to_horizontal_arith:
  fixes a b :: int
  shows "transition (b = 0 \<and> (a = - 1 \<or> a = 0 \<or> a = 1))
           (\<Sum>(dr, dc)\<leftarrow>neighbor_offsets.
               if b + dc = 0 \<and> (a + dr = - 1 \<or> a + dr = 0 \<or> a + dr = 1) then 1 else 0)
         = (a = 0 \<and> (b = - 1 \<or> b = 0 \<or> b = 1))"
proof -
  have A: "b \<le> - 2 \<or> b = - 1 \<or> b = 0 \<or> b = 1 \<or> 2 \<le> b" by arith
  have B: "a \<le> - 3 \<or> a = - 2 \<or> a = - 1 \<or> a = 0 \<or> a = 1 \<or> a = 2 \<or> 3 \<le> a" by arith
  from A B show ?thesis
    by (elim disjE) (simp_all add: neighbor_offsets_def transition_def)
qed

lemma live_neighbors_sum:
  "live_neighbors b i j =
     (\<Sum>(dr, dc)\<leftarrow>neighbor_offsets. if alive_at b (int i + dr) (int j + dc) then 1 else 0)"
  by (simp add: live_neighbors_def length_filter_sum case_prod_unfold)

lemma valid_board_has_shape:
  "valid_board b \<Longrightarrow> has_shape (Rows b) (length (state b ! 0)) b"
  by (cases "state b") (auto simp: has_shape_def valid_board_def Rows_def list_all_iff)

lemma roomy_Tick:
  assumes "roomy r c b"
  shows "\<exists>b'. Tick b = Some b' \<and> roomy r c b' \<and> Rows b' = Rows b \<and>
           (\<forall>i<Rows b. length (state b' ! i) = length (state b ! i) \<and>
              (\<forall>j<length (state b ! i).
                 state b' ! i ! j = transition (state b ! i ! j) (live_neighbors b i j)))"
proof -
  have v: "valid_board b" and R: "Rows b < 2 ^ 31" and C: "length (state b ! 0) < 2 ^ 31"
    and pos: "0 < Rows b"
    using assms by (simp_all add: roomy_def)
  let ?b' = "b\<lparr>state := Tick_progress b (Rows b) 0\<rparr>"
  have t: "Tick b = Some ?b'" using v by (rule Tick_eq)
  have rows: "Rows ?b' = Rows b" by (simp add: Rows_def [of ?b'])
  have len: "length (state ?b' ! i) = length (state b ! i)" if "i < Rows b" for i
    using that by simp
  have cell: "state ?b' ! i ! j = transition (state b ! i ! j) (live_neighbors b i j)"
    if "i < Rows b" "j < length (state b ! i)" for i j
  proof -
    have "j < length (state b ! 0)"
      using that valid_board_row_length [OF v that(1)] by simp
    then have "live_count b i j = live_neighbors b i j"
      using v R C that(1) by (intro live_count_live_neighbors)
    then show ?thesis using that by (simp add: Tick_progress_nth)
  qed
  have v': "valid_board ?b'"
  proof -
    have "has_shape (Rows b) (length (state b ! 0)) b"
      using v by (rule valid_board_has_shape)
    then have "has_shape (Rows b) (length (state b ! 0)) ?b'"
      using has_shape_Tick t by fastforce
    then show ?thesis by (rule has_shape_valid)
  qed
  have "roomy r c ?b'"
    using assms v' rows len [OF pos] by (simp add: roomy_def)
  with t rows len cell show ?thesis by blast
qed

lemma alive_at_horizontal:
  assumes "roomy r c b" "horizontal_triple r c b"
  shows "alive_at b x y = (x - int r = 0 \<and> (y - int c = - 1 \<or> y - int c = 0 \<or> y - int c = 1))"
proof (cases "0 \<le> x \<and> x < int (Rows b) \<and> 0 \<le> y \<and> y < int (length (state b ! 0))")
  case True
  then have i: "nat x < Rows b" by linarith
  have len: "length (state b ! nat x) = length (state b ! 0)"
    using assms(1) i by (simp add: roomy_def valid_board_row_length [of b "nat x"])
  with True have j: "nat y < length (state b ! nat x)" by linarith
  have "state b ! nat x ! nat y = (nat x = r \<and> (nat y + 1 = c \<or> nat y = c \<or> nat y = c + 1))"
    using assms(2) i j by (simp add: horizontal_triple_def list_all_iff)
  with True len show ?thesis
    by (simp add: alive_at_def) linarith
next
  case False
  have len: "length (state b ! nat x) = length (state b ! 0)" if "0 \<le> x" "x < int (Rows b)"
    using assms(1) that by (simp add: roomy_def valid_board_row_length [of b "nat x"])
  from False assms(1) len show ?thesis
    by (auto simp: alive_at_def roomy_def)
qed

lemma alive_at_vertical:
  assumes "roomy r c b" "vertical_triple r c b"
  shows "alive_at b x y = (y - int c = 0 \<and> (x - int r = - 1 \<or> x - int r = 0 \<or> x - int r = 1))"
proof (cases "0 \<le> x \<and> x < int (Rows b) \<and> 0 \<le> y \<and> y < int (length (state b ! 0))")
  case True
  then have i: "nat x < Rows b" by linarith
  have len: "length (state b ! nat x) = length (state b ! 0)"
    using assms(1) i by (simp add: roomy_def valid_board_row_length [of b "nat x"])
  with True have j: "nat y < length (state b ! nat x)" by linarith
  have "state b ! nat x ! nat y = (nat y = c \<and> (nat x + 1 = r \<or> nat x = r \<or> nat x = r + 1))"
    using assms(2) i j by (simp add: vertical_triple_def list_all_iff)
  with True len show ?thesis
    by (simp add: alive_at_def) linarith
next
  case False
  have len: "length (state b ! nat x) = length (state b ! 0)" if "0 \<le> x" "x < int (Rows b)"
    using assms(1) that by (simp add: roomy_def valid_board_row_length [of b "nat x"])
  from False assms(1) len show ?thesis
    by (auto simp: alive_at_def roomy_def)
qed

lemma horizontal_triple_Tick:
  assumes rm: "roomy r c b" and h: "horizontal_triple r c b"
  shows "\<exists>b'. Tick b = Some b' \<and> roomy r c b' \<and> vertical_triple r c b' \<and> Rows b' = Rows b \<and>
           (\<forall>i<Rows b. length (state b' ! i) = length (state b ! i))"
proof -
  obtain b' where t: "Tick b = Some b'" and rm': "roomy r c b'" and rows: "Rows b' = Rows b"
    and len: "\<And>i. i < Rows b \<Longrightarrow> length (state b' ! i) = length (state b ! i)"
    and cell: "\<And>i j. i < Rows b \<Longrightarrow> j < length (state b ! i) \<Longrightarrow>
                 state b' ! i ! j = transition (state b ! i ! j) (live_neighbors b i j)"
    using roomy_Tick [OF rm] by blast
  have alive: "alive_at b (p + dr) (q + dc) =
                 (p - int r + dr = 0 \<and>
                  (q - int c + dc = - 1 \<or> q - int c + dc = 0 \<or> q - int c + dc = 1))" for p q dr dc
    using alive_at_horizontal [OF rm h, of "p + dr" "q + dc"] by (simp add: algebra_simps)
  have "state b' ! i ! j = (j = c \<and> (i + 1 = r \<or> i = r \<or> i = r + 1))"
    if i: "i < Rows b" and j: "j < length (state b ! i)" for i j
  proof -
    have old: "state b ! i ! j =
               (int i - int r = 0 \<and> (int j - int c = - 1 \<or> int j - int c = 0 \<or> int j - int c = 1))"
      using h i j by (simp add: horizontal_triple_def list_all_iff) linarith
    have "state b' ! i ! j =
          (int j - int c = 0 \<and> (int i - int r = - 1 \<or> int i - int r = 0 \<or> int i - int r = 1))"
      unfolding cell [OF i j] old live_neighbors_sum alive
      by (rule horizontal_to_vertical_arith)
    then show ?thesis by simp linarith
  qed
  then have "vertical_triple r c b'"
    using rows len by (simp add: vertical_triple_def list_all_iff)
  with t rm' rows len show ?thesis by blast
qed

lemma vertical_triple_Tick:
  assumes rm: "roomy r c b" and h: "vertical_triple r c b"
  shows "\<exists>b'. Tick b = Some b' \<and> roomy r c b' \<and> horizontal_triple r c b' \<and> Rows b' = Rows b \<and>
           (\<forall>i<Rows b. length (state b' ! i) = length (state b ! i))"
proof -
  obtain b' where t: "Tick b = Some b'" and rm': "roomy r c b'" and rows: "Rows b' = Rows b"
    and len: "\<And>i. i < Rows b \<Longrightarrow> length (state b' ! i) = length (state b ! i)"
    and cell: "\<And>i j. i < Rows b \<Longrightarrow> j < length (state b ! i) \<Longrightarrow>
                 state b' ! i ! j = transition (state b ! i ! j) (live_neighbors b i j)"
    using roomy_Tick [OF rm] by blast
  have alive: "alive_at b (p + dr) (q + dc) =
                 (q - int c + dc = 0 \<and>
                  (p - int r + dr = - 1 \<or> p - int r + dr = 0 \<or> p - int r + dr = 1))" for p q dr dc
    using alive_at_vertical [OF rm h, of "p + dr" "q + dc"] by (simp add: algebra_simps)
  have "state b' ! i ! j = (i = r \<and> (j + 1 = c \<or> j = c \<or> j = c + 1))"
    if i: "i < Rows b" and j: "j < length (state b ! i)" for i j
  proof -
    have old: "state b ! i ! j =
               (int j - int c = 0 \<and> (int i - int r = - 1 \<or> int i - int r = 0 \<or> int i - int r = 1))"
      using h i j by (simp add: vertical_triple_def list_all_iff) linarith
    have "state b' ! i ! j =
          (int i - int r = 0 \<and> (int j - int c = - 1 \<or> int j - int c = 0 \<or> int j - int c = 1))"
      unfolding cell [OF i j] old live_neighbors_sum alive
      by (rule vertical_to_horizontal_arith)
    then show ?thesis by simp linarith
  qed
  then have "horizontal_triple r c b'"
    using rows len by (simp add: horizontal_triple_def list_all_iff)
  with t rm' rows len show ?thesis by blast
qed

lemma blinker_on_bounded_board:
  assumes rm: "roomy r c b" and h: "horizontal_triple r c b"
  shows "\<exists>b'. Tick b = Some b' \<and> vertical_triple r c b' \<and> Tick b' = Some b"
proof -
  obtain b' where t: "Tick b = Some b'" and rm': "roomy r c b'" and v: "vertical_triple r c b'"
    and rows: "Rows b' = Rows b"
    and len: "\<And>i. i < Rows b \<Longrightarrow> length (state b' ! i) = length (state b ! i)"
    using horizontal_triple_Tick [OF rm h] by blast
  obtain b'' where t': "Tick b' = Some b''" and h'': "horizontal_triple r c b''"
    and rows': "Rows b'' = Rows b'"
    and len': "\<And>i. i < Rows b' \<Longrightarrow> length (state b'' ! i) = length (state b' ! i)"
    using vertical_triple_Tick [OF rm' v] by blast
  have "state b'' = state b"
  proof (rule nth_equalityI)
    show "length (state b'') = length (state b)"
      using rows rows' by (simp add: Rows_def)
  next
    fix i
    assume "i < length (state b'')"
    then have i: "i < Rows b" using rows rows' by (simp add: Rows_def)
    show "state b'' ! i = state b ! i"
    proof (rule nth_equalityI)
      show "length (state b'' ! i) = length (state b ! i)"
        using i rows len len' by simp
    next
      fix j
      assume "j < length (state b'' ! i)"
      then have j: "j < length (state b ! i)" using i rows len len' by simp
      show "state b'' ! i ! j = state b ! i ! j"
        using h h'' i j rows rows' len len'
        by (simp add: horizontal_triple_def list_all_iff)
    qed
  qed
  then have "b'' = b" by simp
  with t t' v show ?thesis by blast
qed

lemma blinker_on_bounded_board_example:
  "roomy 1 1 \<lparr>state = [[False, False, False], [True, True, True], [False, False, False]]\<rparr> \<and>
   horizontal_triple 1 1 \<lparr>state = [[False, False, False], [True, True, True], [False, False, False]]\<rparr> \<and>
   vertical_triple 1 1 \<lparr>state = [[False, True, False], [False, True, False], [False, True, False]]\<rparr>"
  by (simp add: roomy_def valid_board_def Rows_def horizontal_triple_def vertical_triple_def upt3)

subsection \<open>Seeding a board that has rows\<close>

lemma has_shape_Cols: "has_shape num_rows num_cols b \<Longrightarrow> 0 < num_rows \<Longrightarrow> Cols b = Some num_cols"
  by (cases "state b") (auto simp: has_shape_def Cols_def at_def)

lemma seed_write:
  assumes s: "has_shape num_rows num_cols b" and n: "num_rows \<le> 2 ^ 31"
    and p: "seed_in_range num_rows num_cols pos"
  shows "write_cell b (int_of_size_t (pos_y pos)) (pos_x pos) True =
           Some (b\<lparr>state := (state b)[pos_y pos := (state b ! pos_y pos)[pos_x pos := True]]\<rparr>)"
proof -
  have y: "pos_y pos < 2 ^ 31" using p n by (simp add: seed_in_range_def)
  then have "int (pos_y pos) < 2 ^ 31"
    by (metis of_nat_less_iff of_nat_numeral of_nat_power)
  then have "int (pos_y pos) < 2 ^ 64" by simp
  then have i: "size_t_of_int (int_of_size_t (pos_y pos)) = pos_y pos"
    by (simp add: int_of_size_t_id [OF y] size_t_of_int_def)
  have "pos_y pos < length (state b)" "pos_x pos < length (state b ! pos_y pos)"
    using s p by (simp_all add: has_shape_def seed_in_range_def list_all_length)
  then show ?thesis
    by (simp add: write_cell_def set_cell_def at_def i)
qed

lemma seed_write_shape:
  assumes s: "has_shape num_rows num_cols b" and p: "seed_in_range num_rows num_cols pos"
  shows "has_shape num_rows num_cols
           (b\<lparr>state := (state b)[pos_y pos := (state b ! pos_y pos)[pos_x pos := True]]\<rparr>)"
proof -
  have "length (state b ! pos_y pos) = num_cols"
    using s p by (simp add: has_shape_def seed_in_range_def list_all_length)
  then show ?thesis
    using s set_update_subset_insert [of "state b" "pos_y pos" "(state b ! pos_y pos)[pos_x pos := True]"]
    by (auto simp: has_shape_def list_all_iff)
qed

lemma seed_write_nth:
  assumes s: "has_shape num_rows num_cols b" and p: "seed_in_range num_rows num_cols pos"
    and i: "i < num_rows" and j: "j < num_cols"
  shows "(state b)[pos_y pos := (state b ! pos_y pos)[pos_x pos := True]] ! i ! j =
           (state b ! i ! j \<or> (pos_y pos = i \<and> pos_x pos = j))"
proof -
  have "length (state b) = num_rows" "length (state b ! pos_y pos) = num_cols"
    using s p by (simp_all add: has_shape_def seed_in_range_def list_all_length)
  then show ?thesis
    using i j p by (auto simp: nth_list_update seed_in_range_def)
qed

lemma InitializeBoard_in_range:
  assumes n: "0 < num_rows" "num_rows \<le> 2 ^ 31"
  shows "has_shape num_rows num_cols b \<Longrightarrow> list_all (seed_in_range num_rows num_cols) seeds \<Longrightarrow>
         \<exists>b'. InitializeBoard seeds b = Seeded b' \<and> has_shape num_rows num_cols b' \<and>
              (\<forall>i<num_rows. \<forall>j<num_cols.
                 state b' ! i ! j = (state b ! i ! j \<or> (\<exists>p \<in> set seeds. pos_y p = i \<and> pos_x p = j)))"
proof (induction seeds arbitrary: b)
  case Nil
  then show ?case by simp
next
  case (Cons pos rest)
  let ?b1 = "b\<lparr>state := (state b)[pos_y pos := (state b ! pos_y pos)[pos_x pos := True]]\<rparr>"
  have p: "seed_in_range num_rows num_cols pos" and r: "list_all (seed_in_range num_rows num_cols) rest"
    using Cons.prems(2) by simp_all
  have s1: "has_shape num_rows num_cols ?b1"
    using Cons.prems(1) p by (rule seed_write_shape)
  obtain b' where b': "InitializeBoard rest ?b1 = Seeded b'" "has_shape num_rows num_cols b'"
    and cells: "\<And>i j. i < num_rows \<Longrightarrow> j < num_cols \<Longrightarrow>
                  state b' ! i ! j = (state ?b1 ! i ! j \<or> (\<exists>p \<in> set rest. pos_y p = i \<and> pos_x p = j))"
    using Cons.IH [OF s1 r] by blast
  have "InitializeBoard (pos # rest) b = Seeded b'"
    using p b'(1)
    by (simp add: has_shape_Cols [OF Cons.prems(1) n(1)] seed_write [OF Cons.prems(1) n(2) p]
        seed_in_range_def Rows_def) (use Cons.prems(1) in \<open>simp add: has_shape_def\<close>)
  moreover have "state b' ! i ! j = (state b ! i ! j \<or> (\<exists>p \<in> set (pos # rest). pos_y p = i \<and> pos_x p = j))"
    if "i < num_rows" "j < num_cols" for i j
    using cells [OF that] seed_write_nth [OF Cons.prems(1) p that] by auto
  ultimately show ?case using b'(2) by blast
qed

lemma InitializeBoard_rejects:
  assumes n: "0 < num_rows" "num_rows \<le> 2 ^ 31"
    and bad: "\<not> seed_in_range num_rows num_cols bad"
  shows "has_shape num_rows num_cols b \<Longrightarrow> list_all (seed_in_range num_rows num_cols) good \<Longrightarrow>
         \<exists>b'. InitializeBoard good b = Seeded b' \<and>
              InitializeBoard (good @ bad # rest) b =
                Thrown ''position does not fit within board boundaries'' b'"
proof (induction good arbitrary: b)
  case Nil
  have "length (state b) = num_rows" using Nil.prems(1) by (simp add: has_shape_def)
  then show ?case
    using bad by (auto simp: has_shape_Cols [OF Nil.prems(1) n(1)] seed_in_range_def Rows_def)
next
  case (Cons pos good)
  let ?b1 = "b\<lparr>state := (state b)[pos_y pos := (state b ! pos_y pos)[pos_x pos := True]]\<rparr>"
  have p: "seed_in_range num_rows num_cols pos" and r: "list_all (seed_in_range num_rows num_cols) good"
    using Cons.prems(2) by simp_all
  have s1: "has_shape num_rows num_cols ?b1"
    using Cons.prems(1) p by (rule seed_write_shape)
  obtain b' where b': "InitializeBoard good ?b1 = Seeded b'"
    "InitializeBoard (good @ bad # rest) ?b1 = Thrown ''position does not fit within board boundaries'' b'"
    using Cons.IH [OF s1 r] by blast
  have len: "length (state b) = num_rows" using Cons.prems(1) by (simp add: has_shape_def)
  have "InitializeBoard (pos # good) b = Seeded b'"
    "InitializeBoard ((pos # good) @ bad # rest) b = Thrown ''position does not fit within board boundaries'' b'"
    using p b' len
    by (simp_all add: has_shape_Cols [OF Cons.prems(1) n(1)] seed_write [OF Cons.prems(1) n(2) p]
        seed_in_range_def Rows_def)
  then show ?case by blast
qed

lemma InitializeBoard_example:
  "InitializeBoard [\<lparr>pos_x = 2, pos_y = 0\<rparr>, \<lparr>pos_x = 3, pos_y = 0\<rparr>, \<lparr>pos_x = 0, pos_y = 1\<rparr>]
     (GameOfLifeBoard 2 3) =
   Thrown ''position does not fit within board boundaries''
     \<lparr>state = [[False, False, True], [False, False, False]]\<rparr>"
  by (simp add: GameOfLifeBoard_def Cols_def Rows_def at_def write_cell_def set_cell_def
      int_of_size_t_def size_t_of_int_def numeral_2_eq_2 numeral_3_eq_3)

subsection \<open>The rules applied to the count that \<open>CountLiveNeighbors\<close> returns\<close>

lemma Tick_rules_on_returned_count:
  assumes "valid_board b" and "r < Rows b" and "Cols b = Some cols" and "c < cols"
  shows "\<exists>b' n. Tick b = Some b' \<and> CountLiveNeighbors b r c = Some n \<and>
           (state b ! r ! c \<and> n < 2 \<longrightarrow> \<not> state b' ! r ! c) \<and>
           (state b ! r ! c \<and> n > 3 \<longrightarrow> \<not> state b' ! r ! c) \<and>
           (state b ! r ! c \<and> (n = 2 \<or> n = 3) \<longrightarrow> state b' ! r ! c) \<and>
           (\<not> state b ! r ! c \<and> n = 3 \<longrightarrow> state b' ! r ! c) \<and>
           (\<not> state b ! r ! c \<and> n \<noteq> 3 \<longrightarrow> \<not> state b' ! r ! c) \<and>
           (Rows b < 2 ^ 31 \<and> cols < 2 ^ 31 \<longrightarrow> n = live_neighbors b r c)"
proof -
  have pos: "0 < Rows b" using assms(2) by simp
  then have cols: "cols = length (state b ! 0)"
    using assms(3) by (simp add: Cols_Some)
  then have "c < length (state b ! r)"
    using assms(4) valid_board_row_length [OF assms(1,2)] by simp
  then obtain b' where b': "Tick b = Some b'"
    and cell: "state b' ! r ! c = transition (state b ! r ! c) (live_count b r c)"
    using Tick_result_nth [OF assms(1,2)] by blast
  have n: "CountLiveNeighbors b r c = Some (live_count b r c)"
    using assms(1) pos by (rule CountLiveNeighbors_eq)
  have "live_count b r c = live_neighbors b r c" if "Rows b < 2 ^ 31" "cols < 2 ^ 31"
    using assms(1,2,4) that unfolding cols by (intro live_count_live_neighbors)
  then show ?thesis
    using b' n cell by (auto simp: transition_def)
qed

lemma Tick_rules_on_returned_count_example:
  "valid_board \<lparr>state = [[False, False, False], [True, True, True], [False, False, False]]\<rparr> \<and>
   1 < Rows \<lparr>state = [[False, False, False], [True, True, True], [False, False, False]]\<rparr> \<and>
   Cols \<lparr>state = [[False, False, False], [True, True, True], [False, False, False]]\<rparr> = Some 3 \<and>
   (\<exists>b'. Tick \<lparr>state = [[False, False, False], [True, True, True], [False, False, False]]\<rparr> = Some b' \<and>
      state b' ! 1 ! 1)"
proof -
  let ?b = "\<lparr>state = [[False, False, False], [True, True, True], [False, False, False]]\<rparr>"
  have v: "valid_board ?b" by (simp add: valid_board_def)
  have r: "1 < Rows ?b" by (simp add: Rows_def)
  have c: "Cols ?b = Some 3" by (simp add: Cols_def at_def)
  have n: "CountLiveNeighbors ?b 1 1 = Some 2"
    by (simp add: CountLiveNeighbors_def Cols_def Rows_def at_def kDirections_def count_direction_narrow
        narrow_def int_of_size_t_def)
  show ?thesis
    using Tick_rules_on_returned_count [OF v r c, of 1] v r c n by auto
qed

section \<open>The claims\<close>

subsection \<open>Construction\<close>

text \<open>
  Claim C6. For all \<open>num_rows\<close> and \<open>num_cols\<close> the constructor produces a board of exactly
  \<open>num_rows\<close> rows, each of exactly \<open>num_cols\<close> cells, and every cell is dead. When the
  board has a row, \<open>Cols\<close> returns \<open>num_cols\<close>; without a row \<open>Cols\<close> has no row 0 to read.
\<close>

theorem GameOfLifeBoard_dimensions_all_dead:
  "Rows (GameOfLifeBoard num_rows num_cols) = num_rows \<and>
   (\<forall>i<num_rows. length (state (GameOfLifeBoard num_rows num_cols) ! i) = num_cols \<and>
      (\<forall>j<num_cols. state (GameOfLifeBoard num_rows num_cols) ! i ! j = False)) \<and>
   (0 < num_rows \<longrightarrow> Cols (GameOfLifeBoard num_rows num_cols) = Some num_cols)"
  by (simp add: GameOfLifeBoard_def Rows_def Cols_def at_def)

theorem GameOfLifeBoard_dimensions_all_dead_witness:
  "Rows (GameOfLifeBoard 2 3) = 2 \<and>
   state (GameOfLifeBoard 2 3) = [[False, False, False], [False, False, False]] \<and>
   Cols (GameOfLifeBoard 2 3) = Some 3"
proof -
  have "state (GameOfLifeBoard 2 3) = [[False, False, False], [False, False, False]]"
    by (simp add: GameOfLifeBoard_def numeral_2_eq_2 numeral_3_eq_3)
  then show ?thesis
    using GameOfLifeBoard_dimensions_all_dead [of 2 3] by simp
qed

subsection \<open>\<open>Tick\<close> is total\<close>

text \<open>
  Claim C4. On every board whose rows have one length, boards without rows or without
  columns included, \<open>Tick\<close> returns a board: no access it performs is out of range
  (an access out of range is \<open>None\<close> in the model). On a board without rows, and so on
  the board of dimensions 0 by 0, it returns the board unchanged.
\<close>

theorem Tick_never_fails:
  "valid_board b \<Longrightarrow>
   (\<exists>b'. Tick b = Some b') \<and> (Rows b = 0 \<longrightarrow> Tick b = Some b) \<and>
   Tick (GameOfLifeBoard 0 0) = Some (GameOfLifeBoard 0 0)"
proof -
  assume v: "valid_board b"
  have empty: "Tick c = Some c" if "Rows c = 0" for c
    using that by (simp add: Tick_def Tick_rows.simps)
  have "Rows (GameOfLifeBoard 0 0) = 0"
    by (simp add: Rows_def GameOfLifeBoard_def)
  moreover have "\<exists>b'. Tick b = Some b'"
    using v by (simp add: Tick_eq)
  ultimately show ?thesis
    using empty by simp
qed

theorem Tick_never_fails_witness:
  "valid_board (GameOfLifeBoard 0 3) \<and> Tick (GameOfLifeBoard 0 3) = Some (GameOfLifeBoard 0 3) \<and>
   valid_board (GameOfLifeBoard 2 0) \<and> (\<exists>b'. Tick (GameOfLifeBoard 2 0) = Some b')"
proof -
  have v1: "valid_board (GameOfLifeBoard 0 3)" and v2: "valid_board (GameOfLifeBoard 2 0)"
    by (rule valid_board_GameOfLifeBoard)+
  have r: "Rows (GameOfLifeBoard 0 3) = 0"
    by (simp add: Rows_def GameOfLifeBoard_def)
  show ?thesis
    using v1 v2 r Tick_never_fails [OF v1] Tick_never_fails [OF v2] by simp
qed

subsection \<open>The rules of one generation\<close>

text \<open>
  Claim C1 says that the state of a cell after one \<open>Tick\<close> follows from its state before
  and from its number of live neighbours before: among the five rules, a dead cell with
  exactly three live neighbours becomes alive. \<open>Tick\<close> applies the five rules to the count
  that \<open>CountLiveNeighbors\<close> returns (\<open>Tick_rules_on_returned_count\<close>), and on boards of
  fewer than \<open>2^31\<close> rows and columns that count is the number of live neighbours. On
  \<open>wide_blinker\<close> it is not: the cell \<open>(0, 1)\<close> is dead and has the three live neighbours
  \<open>(1, 0)\<close>, \<open>(1, 1)\<close> and \<open>(1, 2)\<close>, the count returned for it is 0 for the reason given
  under claim C2, and the cell is dead after the tick.
\<close>

theorem Tick_misses_birth_on_wide_board:
  "valid_board wide_blinker \<and> 0 < Rows wide_blinker \<and> Cols wide_blinker = Some (2 ^ 31) \<and>
   \<not> state wide_blinker ! 0 ! 1 \<and>
   live_neighbors wide_blinker 0 1 = 3 \<and>
   CountLiveNeighbors wide_blinker 0 1 = Some 0 \<and>
   (\<exists>b'. Tick wide_blinker = Some b' \<and> \<not> state b' ! 0 ! 1)"
proof -
  have c: "Cols wide_blinker = Some (2 ^ 31)"
    by (simp add: Cols_def at_def wide_blinker_def)
  have r: "Rows wide_blinker = 3"
    by (simp add: Rows_def wide_blinker_def)
  have dead: "\<not> state wide_blinker ! 0 ! 1"
    by (simp add: wide_blinker_def)
  have three: "live_neighbors wide_blinker 0 1 = 3"
    by (simp add: live_neighbors_def neighbor_offsets_def alive_at_def r) (simp add: wide_blinker_def)
  have len: "length (state wide_blinker ! 0) = 2 ^ 31"
    by (simp add: wide_blinker_def)
  have lim: "int_of_size_t (length (state wide_blinker ! 0)) \<le> 0"
    by (simp add: len int_of_size_t_def)
  have n: "CountLiveNeighbors wide_blinker 0 1 = Some 0"
    using CountLiveNeighbors_eq [OF valid_wide_blinker, of 0 1] r
    by (simp add: live_count_wide [OF lim])
  have t: "Tick wide_blinker = Some (GameOfLifeBoard 3 (2 ^ 31))"
    unfolding Tick_wide [OF valid_wide_blinker lim] r
    by (simp add: upt3 GameOfLifeBoard_def numeral_3_eq_3) (simp add: wide_blinker_def)
  have "\<not> state (GameOfLifeBoard 3 (2 ^ 31)) ! 0 ! 1"
    by (simp add: GameOfLifeBoard_def)
  with t have "\<exists>b'. Tick wide_blinker = Some b' \<and> \<not> state b' ! 0 ! 1" by simp
  with c r dead three n valid_wide_blinker show ?thesis by simp
qed

subsection \<open>\<open>Tick\<close> against the double-buffered reference\<close>



subsection \<open>The board without a live cell is a fixed point\<close>

text \<open>
  Claim C9. On every board whose rows have one length and whose cells are all dead, \<open>Tick\<close>
  returns a board whose cells are all dead: it returns the same board.
\<close>

theorem Tick_all_dead_fixed_point:
  "valid_board b \<Longrightarrow> all_dead b \<Longrightarrow> (\<exists>b'. Tick b = Some b' \<and> all_dead b') \<and> Tick b = Some b"
  by (simp add: Tick_eq Tick_progress_all_dead)

theorem Tick_all_dead_fixed_point_witness:
  "valid_board (GameOfLifeBoard 2 3) \<and> all_dead (GameOfLifeBoard 2 3) \<and>
   Tick (GameOfLifeBoard 2 3) = Some (GameOfLifeBoard 2 3)"
proof -
  have v: "valid_board (GameOfLifeBoard 2 3)" by (rule valid_board_GameOfLifeBoard)
  have d: "all_dead (GameOfLifeBoard 2 3)"
    by (simp add: all_dead_def GameOfLifeBoard_def list_all_length)
  show ?thesis
    using Tick_all_dead_fixed_point [OF v d] v d by simp
qed

subsection \<open>The dimensions never change\<close>

text \<open>
  Claim C5. After construction with \<open>num_rows\<close> and \<open>num_cols\<close> and after any sequence of
  ticks and of cell writes in range, the sequence has run without an access out of range,
  the grid has \<open>num_rows\<close> rows and every row has \<open>num_cols\<close> entries; one more \<open>Tick\<close>
  returns a board of the same shape, for which \<open>Rows\<close> and \<open>Cols\<close> return what they
  returned before it.
\<close>

theorem board_stays_rectangular:
  assumes "list_all (op_in_range num_rows num_cols) ops"
  shows "\<exists>b. run_ops (GameOfLifeBoard num_rows num_cols) ops = Some b \<and>
           Rows b = num_rows \<and> (\<forall>r \<in> set (state b). length r = num_cols) \<and>
           (\<exists>b'. Tick b = Some b' \<and> Rows b' = Rows b \<and> Cols b' = Cols b \<and>
                 (\<forall>r \<in> set (state b'). length r = num_cols))"
proof -
  obtain b where b: "run_ops (GameOfLifeBoard num_rows num_cols) ops = Some b"
      "has_shape num_rows num_cols b"
    using run_ops_shape [OF has_shape_GameOfLifeBoard assms] by blast
  obtain b' where b': "Tick b = Some b'" "has_shape num_rows num_cols b'" "Rows b' = Rows b"
      "Cols b' = Cols b"
    using has_shape_Tick [OF b(2)] by blast
  show ?thesis
    using b b' by (auto simp: has_shape_def Rows_def list_all_iff)
qed

theorem board_stays_rectangular_witness:
  "list_all (op_in_range 2 3) [DoWrite 1 1 True, DoTick, DoWrite 0 2 True, DoTick] \<and>
   (\<exists>b. run_ops (GameOfLifeBoard 2 3) [DoWrite 1 1 True, DoTick, DoWrite 0 2 True, DoTick] = Some b \<and>
        Rows b = 2 \<and> Cols b = Some 3 \<and>
        (\<exists>b'. Tick b = Some b' \<and> Rows b' = 2 \<and> Cols b' = Some 3))"
proof -
  have h: "list_all (op_in_range 2 3) [DoWrite 1 1 True, DoTick, DoWrite 0 2 True, DoTick]"
    by (simp add: op_in_range_def)
  obtain b b' where b: "run_ops (GameOfLifeBoard 2 3) [DoWrite 1 1 True, DoTick, DoWrite 0 2 True, DoTick] = Some b"
      "Rows b = 2" "\<forall>r \<in> set (state b). length r = 3"
      "Tick b = Some b'" "Rows b' = Rows b" "Cols b' = Cols b"
    using board_stays_rectangular [OF h] by blast
  have "Cols b = Some 3"
    using b(2,3) by (cases "state b") (simp_all add: Cols_def Rows_def at_def)
  with h b show ?thesis by simp
qed

subsection \<open>The neighbour count\<close>

text \<open>
  Claim C2 says that \<open>CountLiveNeighbors\<close> returns, for every board and every cell in range,
  the number of live cells among the eight surrounding positions, positions off the board
  counted as dead: \<open>live_neighbors\<close>. On boards of fewer than \<open>2^31\<close> rows and columns
  it does (\<open>CountLiveNeighbors_bounded\<close>), and a lone live cell at \<open>(0, 0)\<close> has the
  count 0 on every board (\<open>lone_cell_has_no_neighbor\<close>). The limits and the neighbour's
  coordinates are held in \<^verbatim>\<open>int\<close>, though: on the board \<open>wide_pair\<close>, one row of
  \<open>2^31\<close> cells with \<open>(0, 0)\<close> and \<open>(0, 1)\<close> alive, the column limit is narrowed to
  \<open>- 2^31\<close>, no neighbour passes the range test, and the count for \<open>(0, 0)\<close> is 0
  where one neighbour is alive.
\<close>

theorem CountLiveNeighbors_misses_neighbor_on_wide_board:
  "valid_board wide_pair \<and> Rows wide_pair = 1 \<and> Cols wide_pair = Some (2 ^ 31) \<and>
   state wide_pair ! 0 ! 1 \<and>
   CountLiveNeighbors wide_pair 0 0 = Some 0 \<and> live_neighbors wide_pair 0 0 = 1"
proof -
  have c: "Cols wide_pair = Some (2 ^ 31)"
    by (simp add: Cols_def at_def wide_pair_def)
  have r: "Rows wide_pair = 1"
    by (simp add: Rows_def wide_pair_def)
  have n: "CountLiveNeighbors wide_pair 0 0 = Some 0"
    by (simp add: CountLiveNeighbors_def c r int_of_size_t_def kDirections_def count_direction_narrow
        narrow_def)
  have s: "state wide_pair ! 0 ! 1"
    by (simp add: wide_pair_def)
  have "live_neighbors wide_pair 0 0 = 1"
    by (simp add: live_neighbors_def neighbor_offsets_def alive_at_def r) (simp add: wide_pair_def)
  with c r n s valid_wide_pair show ?thesis by simp
qed

subsection \<open>The blinker\<close>

text \<open>
  Claim C8 says that on every board large enough a horizontal triple becomes the vertical
  triple through its centre after one \<open>Tick\<close> and comes back after a second. On boards
  of fewer than \<open>2^31\<close> rows and columns it does (\<open>blinker_on_bounded_board\<close>). On
  \<open>wide_blinker\<close>, three rows of \<open>2^31\<close> cells with the triple in row 1 at columns
  0, 1, 2, every count is 0 for the reason given under claim C2, and \<open>Tick\<close> returns the
  board without a live cell.
\<close>

theorem Tick_kills_blinker_on_wide_board:
  "valid_board wide_blinker \<and> Rows wide_blinker = 3 \<and> Cols wide_blinker = Some (2 ^ 31) \<and>
   horizontal_triple 1 1 wide_blinker \<and>
   Tick wide_blinker = Some (GameOfLifeBoard 3 (2 ^ 31)) \<and>
   \<not> vertical_triple 1 1 (GameOfLifeBoard 3 (2 ^ 31))"
proof -
  have c: "Cols wide_blinker = Some (2 ^ 31)"
    by (simp add: Cols_def at_def wide_blinker_def)
  have r: "Rows wide_blinker = 3"
    by (simp add: Rows_def wide_blinker_def)
  have len: "length (state wide_blinker ! 0) = 2 ^ 31"
    by (simp add: wide_blinker_def)
  have lim: "int_of_size_t (length (state wide_blinker ! 0)) \<le> 0"
    by (simp add: len int_of_size_t_def)
  have "Tick wide_blinker = Some (GameOfLifeBoard 3 (2 ^ 31))"
    unfolding Tick_wide [OF valid_wide_blinker lim] r
    by (simp add: upt3 GameOfLifeBoard_def numeral_3_eq_3) (simp add: wide_blinker_def)
  with c r valid_wide_blinker horizontal_wide_blinker not_vertical_dead show ?thesis by simp
qed

subsection \<open>Seeding\<close>

text \<open>
  Claim C10 says that \<open>InitializeBoard\<close> rejects a coordinate off the board with an error
  before it applies it, and sets exactly the listed cells when all are on the board. On a
  board that has rows (at most \<open>2^31\<close> of them, the row index passing through an
  \<^verbatim>\<open>int\<close>) it does: \<open>InitializeBoard_in_range\<close>, \<open>InitializeBoard_rejects\<close>. Its
  test reads \<open>Cols\<close> first, though, and \<open>Cols\<close> reads row 0: on a board without rows,
  where every coordinate is off the board, the test itself is an access out of range and
  no error is thrown.
\<close>

theorem InitializeBoard_without_rows:
  "valid_board (GameOfLifeBoard 0 80) \<and> Rows (GameOfLifeBoard 0 80) = 0 \<and>
   InitializeBoard [\<lparr>pos_x = 0, pos_y = 0\<rparr>] (GameOfLifeBoard 0 80) = OutOfRange"
  by (simp add: valid_board_GameOfLifeBoard) (simp add: GameOfLifeBoard_def Rows_def Cols_def at_def)

end
